theory Spec2Isabelle
  imports Main "HOL-Library.Word"
begin

section \<open>The Memento example: Originator, ConcreteMemento, Caretaker\<close>

text \<open>
  Shallow embedding of the Memento example (\<^verbatim>\<open>Conceptual/index.ts\<close> of the Memento
  directory).  The script creates one \<^verbatim>\<open>Originator\<close> and one \<^verbatim>\<open>Caretaker\<close> bound to
  it; the memento objects that \<^verbatim>\<open>save()\<close> creates are shared by reference between the
  caller of \<^verbatim>\<open>save()\<close> and the caretaker's array.  The model therefore keeps the
  memento objects in an explicit store and lets the array hold references.
\<close>

subsection \<open>JavaScript strings\<close>

text \<open>
  A JavaScript string is a sequence of UTF-16 code units; \<^verbatim>\<open>length\<close>, \<^verbatim>\<open>substr\<close>,
  \<^verbatim>\<open>slice\<close> and \<^verbatim>\<open>charAt\<close> all count code units.  A string is an immutable
  primitive value, so a field of type \<^verbatim>\<open>string\<close> holds the value itself.  String
  literals of the source are ASCII and are written through \<open>lit\<close>.
\<close>

type_synonym char16 = "16 word"
type_synonym js_string = "char16 list"

definition lit :: "string \<Rightarrow> js_string" where
  "lit s = map of_char s"

text \<open>\<^verbatim>\<open>s.substr(start, length)\<close> for non-negative arguments.\<close>

definition substr :: "js_string \<Rightarrow> nat \<Rightarrow> nat \<Rightarrow> js_string" where
  "substr s start len = take len (drop start s)"

text \<open>\<^verbatim>\<open>s.slice(begin, end)\<close> for non-negative arguments.\<close>

definition slice_string :: "js_string \<Rightarrow> nat \<Rightarrow> nat \<Rightarrow> js_string" where
  "slice_string s b e = drop b (take e s)"

text \<open>
  \<^verbatim>\<open>s.replace(p, r)\<close> where the pattern \<^verbatim>\<open>p\<close> is a string of one code unit and the
  replacement has no \<^verbatim>\<open>$\<close> pattern: only the first occurrence is replaced.
\<close>

fun replace :: "js_string \<Rightarrow> char16 \<Rightarrow> js_string \<Rightarrow> js_string" where
  "replace [] p r = []"
| "replace (c # cs) p r = (if c = p then r @ cs else c # replace cs p r)"

text \<open>\<^verbatim>\<open>s.charAt(i)\<close>: the empty string when \<^verbatim>\<open>i\<close> is out of range.\<close>

definition charAt :: "js_string \<Rightarrow> nat \<Rightarrow> js_string" where
  "charAt s i = (if i < length s then [s ! i] else [])"

subsection \<open>Objects and the world\<close>

type_synonym ref = nat

text \<open>\<^verbatim>\<open>class Originator { private state: string }\<close>\<close>

record Originator =
  state :: js_string

text \<open>\<^verbatim>\<open>class ConcreteMemento { private state: string; private date: string }\<close>\<close>

record ConcreteMemento =
  state :: js_string
  date :: js_string

text \<open>
  \<^verbatim>\<open>class Caretaker { private mementos: Memento[]; private originator: Originator }\<close>.
  The field \<^verbatim>\<open>originator\<close> refers to the one Originator of the world and is never
  reassigned, so it is not stored.
\<close>

record Caretaker =
  mementos :: "ref list"

text \<open>
  The world: the Originator, the Caretaker bound to it, the store of memento objects in
  the order of their creation (a reference is an index into it; objects are never removed
  from the store, the garbage collector being invisible), and the lines written by
  \<^verbatim>\<open>console.log\<close>, oldest first.
\<close>

record world =
  originator :: Originator
  caretaker :: Caretaker
  heap :: "ConcreteMemento list"
  console :: "js_string list"

text \<open>
  What a call gives back to its caller: a value and the world after the call, or a thrown
  error and the world at the moment of the throw.  The only error the code can throw is
  the \<^verbatim>\<open>TypeError\<close> of a method call on \<^verbatim>\<open>null\<close> or \<^verbatim>\<open>undefined\<close>.
\<close>

datatype error = TypeError

text \<open>
  The value a caller receives: \<open>Undefined\<close> is what a \<^verbatim>\<open>void\<close> method returns
  (its body ends without a \<^verbatim>\<open>return\<close> of a value).
\<close>

datatype jsval = Undefined | Object ref | String js_string

datatype 'a outcome = Normal 'a world | Raised error world

primrec world_of :: "'a outcome \<Rightarrow> world" where
  "world_of (Normal v w) = w"
| "world_of (Raised e w) = w"

definition console_log :: "js_string \<Rightarrow> world \<Rightarrow> world" where
  "console_log s w = w\<lparr>console := console w @ [s]\<rparr>"

subsection \<open>ConcreteMemento\<close>

text \<open>
  The constructor; \<open>now\<close> is what \<^verbatim>\<open>new Date().toISOString()\<close> returns at that moment
  (the clock is an input of the model).
\<close>

definition new_ConcreteMemento :: "js_string \<Rightarrow> js_string \<Rightarrow> ConcreteMemento" where
  "new_ConcreteMemento st now =
     \<lparr>ConcreteMemento.state = st,
      date = replace (slice_string now 0 19) (of_char CHR ''T'') (lit '' '')\<rparr>"

text \<open>The bodies of the three methods, as functions of the object \<^verbatim>\<open>this\<close>.\<close>

definition getState :: "ConcreteMemento \<Rightarrow> js_string" where
  "getState this = ConcreteMemento.state this"

definition getName :: "ConcreteMemento \<Rightarrow> js_string" where
  "getName this =
     date this @ lit '' / ('' @ substr (ConcreteMemento.state this) 0 9 @ lit ''...)''"

definition getDate :: "ConcreteMemento \<Rightarrow> js_string" where
  "getDate this = date this"

text \<open>
  A value of type \<^verbatim>\<open>Memento\<close> is a reference or, at run time, \<^verbatim>\<open>null\<close>/\<^verbatim>\<open>undefined\<close>
  (\<open>None\<close>).  \<open>deref\<close> finds the object a method call acts on; there is none for
  \<open>None\<close>, and none for an index outside the store (no JavaScript value is such a
  reference).
\<close>

definition deref :: "world \<Rightarrow> ref option \<Rightarrow> ConcreteMemento option" where
  "deref w r = (case r of None \<Rightarrow> None
     | Some a \<Rightarrow> if a < length (heap w) then Some (heap w ! a) else None)"

text \<open>
  The call \<^verbatim>\<open>memento.method()\<close> of one of the three methods above: a
  \<^verbatim>\<open>TypeError\<close> is thrown when there is no object; otherwise the body runs, and it
  only reads the fields of the object.
\<close>

definition invoke :: "(ConcreteMemento \<Rightarrow> 'a) \<Rightarrow> ref option \<Rightarrow> world \<Rightarrow> 'a outcome" where
  "invoke method memento w = (case deref w memento of None \<Rightarrow> Raised TypeError w
     | Some this \<Rightarrow> Normal (method this) w)"

subsection \<open>Originator\<close>

definition charSet :: js_string where
  "charSet = lit ''abcdefghijklmnopqrstuvwxyzABCDEFGHIJKLMNOPQRSTUVWXYZ''"

text \<open>
  \<open>rnd k\<close> is the value of \<^verbatim>\<open>Math.floor(Math.random() * charSet.length)\<close> in the
  \<open>k\<close>-th call of the callback (the random source is an input of the model).
\<close>

definition generateRandomString :: "(nat \<Rightarrow> nat) \<Rightarrow> nat \<Rightarrow> js_string" where
  "generateRandomString rnd len = concat (map (\<lambda>k. charAt charSet (rnd k)) [0..<len])"

definition doSomething :: "(nat \<Rightarrow> nat) \<Rightarrow> world \<Rightarrow> jsval outcome" where
  "doSomething rnd w =
     (let w1 = console_log (lit ''Originator: I'm doing something important.'') w;
          w2 = w1\<lparr>originator := (originator w1)\<lparr>Originator.state := generateRandomString rnd 30\<rparr>\<rparr>
      in Normal Undefined
           (console_log (lit ''Originator: and my state has changed to: ''
              @ Originator.state (originator w2)) w2))"

text \<open>\<^verbatim>\<open>save()\<close> creates a memento object and returns the reference to it.\<close>

definition save :: "js_string \<Rightarrow> world \<Rightarrow> ref outcome" where
  "save now w =
     Normal (length (heap w))
       (w\<lparr>heap := heap w @ [new_ConcreteMemento (Originator.state (originator w)) now]\<rparr>)"

definition restore :: "ref option \<Rightarrow> world \<Rightarrow> jsval outcome" where
  "restore memento w = (case invoke getState memento w of Raised e w1 \<Rightarrow> Raised e w1
     | Normal s w1 \<Rightarrow>
         (let w2 = w1\<lparr>originator := (originator w1)\<lparr>Originator.state := s\<rparr>\<rparr>
          in Normal Undefined
               (console_log (lit ''Originator: My state has changed to: ''
                  @ Originator.state (originator w2)) w2)))"

subsection \<open>Caretaker\<close>

text \<open>\<^verbatim>\<open>this.mementos.push(m)\<close> and \<^verbatim>\<open>this.mementos.pop()\<close> of the array.\<close>

definition push :: "ref \<Rightarrow> world \<Rightarrow> world" where
  "push m w = w\<lparr>caretaker := (caretaker w)\<lparr>mementos := mementos (caretaker w) @ [m]\<rparr>\<rparr>"

definition pop :: "world \<Rightarrow> ref option \<times> world" where
  "pop w =
     (if mementos (caretaker w) = [] then (None, w)
      else (Some (last (mementos (caretaker w))),
            w\<lparr>caretaker := (caretaker w)\<lparr>mementos := butlast (mementos (caretaker w))\<rparr>\<rparr>))"

definition backup :: "js_string \<Rightarrow> world \<Rightarrow> jsval outcome" where
  "backup now w =
     (let w1 = console_log (lit ''\<newline>Caretaker: Saving Originator's state...'') w
      in case save now w1 of Raised e w2 \<Rightarrow> Raised e w2
         | Normal m w2 \<Rightarrow> Normal Undefined (push m w2))"

definition undo :: "world \<Rightarrow> jsval outcome" where
  "undo w =
     (if length (mementos (caretaker w)) = 0 then Normal Undefined w
      else (let (memento, w1) = pop w
            in case invoke getName memento w1 of Raised e w2 \<Rightarrow> Raised e w2
               | Normal name w2 \<Rightarrow>
                   restore memento
                     (console_log (lit ''Caretaker: Restoring state to: '' @ name) w2)))"

text \<open>
  The \<^verbatim>\<open>for ... of\<close> loop of \<^verbatim>\<open>showHistory()\<close>; its body does not change the array,
  so the loop runs over the elements the array had at its start.
\<close>

fun showHistory_loop :: "ref list \<Rightarrow> world \<Rightarrow> jsval outcome" where
  "showHistory_loop [] w = Normal Undefined w"
| "showHistory_loop (memento # rest) w =
     (case invoke getName (Some memento) w of Raised e w1 \<Rightarrow> Raised e w1
      | Normal name w1 \<Rightarrow> showHistory_loop rest (console_log name w1))"

definition showHistory :: "world \<Rightarrow> jsval outcome" where
  "showHistory w =
     showHistory_loop (mementos (caretaker w))
       (console_log (lit ''Caretaker: Here's the list of mementos:'') w)"

subsection \<open>Client code\<close>

text \<open>
  \<^verbatim>\<open>new Originator(s)\<close> followed by \<^verbatim>\<open>new Caretaker(originator)\<close>: the constructor of
  the Originator logs one line, the Caretaker starts with an empty array.
\<close>

definition initial :: "js_string \<Rightarrow> world" where
  "initial s =
     console_log (lit ''Originator: My initial state is: '' @ s)
       \<lparr>originator = \<lparr>Originator.state = s\<rparr>, caretaker = \<lparr>mementos = []\<rparr>,
        heap = [], console = []\<rparr>"

text \<open>
  The calls a client can make, with their inputs.  A client that catches a thrown error
  goes on from the world at the throw, so a sequence of calls is run to its end.
\<close>

datatype call =
    DoSomething "nat \<Rightarrow> nat"
  | Save js_string
  | Restore "ref option"
  | Backup js_string
  | Undo
  | ShowHistory

primrec exec :: "call \<Rightarrow> world \<Rightarrow> world" where
  "exec (DoSomething rnd) w = world_of (doSomething rnd w)"
| "exec (Save now) w = world_of (save now w)"
| "exec (Restore memento) w = world_of (restore memento w)"
| "exec (Backup now) w = world_of (backup now w)"
| "exec Undo w = world_of (undo w)"
| "exec ShowHistory w = world_of (showHistory w)"

primrec run :: "call list \<Rightarrow> world \<Rightarrow> world" where
  "run [] w = w"
| "run (c # cs) w = run cs (exec c w)"

text \<open>The worlds a client can bring about.\<close>

inductive reachable :: "world \<Rightarrow> bool" where
  reachable_initial: "reachable (initial s)"
| reachable_exec: "reachable w \<Longrightarrow> reachable (exec c w)"

code_pred reachable .

text \<open>Every reference in the caretaker's array is a reference to an object of the store.\<close>

definition valid_refs :: "world \<Rightarrow> bool" where
  "valid_refs w = list_all (\<lambda>r. r < length (heap w)) (mementos (caretaker w))"

text \<open>
  The initial state the script gives its Originator, and one value for each input of the
  model: a reading of the clock and a random source.
\<close>

definition client_state :: js_string where
  "client_state = lit ''Super-duper-super-puper-super.''"

definition example_now :: js_string where
  "example_now = lit ''2024-01-02T03:04:05.678Z''"

definition example_rnd :: "nat \<Rightarrow> nat" where
  "example_rnd k = (7 * k + 3) mod 52"

text \<open>
  Which calls are \<^verbatim>\<open>caretaker.backup()\<close>, which are \<^verbatim>\<open>originator.doSomething()\<close>,
  which are \<^verbatim>\<open>caretaker.undo()\<close>.
\<close>

primrec is_Backup :: "call \<Rightarrow> bool" where
  "is_Backup (DoSomething rnd) = False"
| "is_Backup (Save now) = False"
| "is_Backup (Restore memento) = False"
| "is_Backup (Backup now) = True"
| "is_Backup Undo = False"
| "is_Backup ShowHistory = False"

primrec is_DoSomething :: "call \<Rightarrow> bool" where
  "is_DoSomething (DoSomething rnd) = True"
| "is_DoSomething (Save now) = False"
| "is_DoSomething (Restore memento) = False"
| "is_DoSomething (Backup now) = False"
| "is_DoSomething Undo = False"
| "is_DoSomething ShowHistory = False"

primrec is_Undo :: "call \<Rightarrow> bool" where
  "is_Undo (DoSomething rnd) = False"
| "is_Undo (Save now) = False"
| "is_Undo (Restore memento) = False"
| "is_Undo (Backup now) = False"
| "is_Undo Undo = True"
| "is_Undo ShowHistory = False"

text \<open>The value a call returned, if it returned.\<close>

primrec value_of :: "'a outcome \<Rightarrow> 'a option" where
  "value_of (Normal v w) = Some v"
| "value_of (Raised e w) = None"

text \<open>A second reading of the clock and a second random source.\<close>

definition example_later :: js_string where
  "example_later = lit ''2024-01-02T03:04:06.000Z''"

definition example_rnd2 :: "nat \<Rightarrow> nat" where
  "example_rnd2 k = (5 * k) mod 52"

subsection \<open>The history as the specification describes it\<close>

text \<open>
  What the caretaker's array holds, read through the store: each reference with the state
  stored in the memento it refers to, in the order of the array.
\<close>

definition entries :: "world \<Rightarrow> (ref \<times> js_string) list" where
  "entries w = map (\<lambda>r. (r, getState (heap w ! r))) (mementos (caretaker w))"

text \<open>
  The specification's History Manager is a stack of captures.  \<open>spec_stack cs w n st\<close>
  follows the calls \<open>cs\<close> from the world \<open>w\<close>, where \<open>n\<close> snapshots have been created
  so far and \<open>st\<close> is the stack, oldest capture first.  A Capture of the History Manager
  (\<^verbatim>\<open>backup\<close>) pushes the snapshot it takes: its number in the order of creation and the
  state the Subject has at that call.  A Revert (\<^verbatim>\<open>undo\<close>) removes the most recent
  capture that no earlier Revert has removed, and does nothing on the empty stack.  No
  other call changes the stack.  Snapshots are created by \<^verbatim>\<open>backup\<close> and by a direct
  \<^verbatim>\<open>save\<close>.
\<close>

primrec creates_snapshot :: "call \<Rightarrow> bool" where
  "creates_snapshot (DoSomething rnd) = False"
| "creates_snapshot (Save now) = True"
| "creates_snapshot (Restore memento) = False"
| "creates_snapshot (Backup now) = True"
| "creates_snapshot Undo = False"
| "creates_snapshot ShowHistory = False"

primrec spec_step ::
  "call \<Rightarrow> world \<Rightarrow> nat \<Rightarrow> (nat \<times> js_string) list \<Rightarrow> (nat \<times> js_string) list" where
  "spec_step (DoSomething rnd) w n st = st"
| "spec_step (Save now) w n st = st"
| "spec_step (Restore memento) w n st = st"
| "spec_step (Backup now) w n st = st @ [(n, Originator.state (originator w))]"
| "spec_step Undo w n st = butlast st"
| "spec_step ShowHistory w n st = st"

fun spec_stack ::
  "call list \<Rightarrow> world \<Rightarrow> nat \<Rightarrow> (nat \<times> js_string) list \<Rightarrow> (nat \<times> js_string) list" where
  "spec_stack [] w n st = st"
| "spec_stack (c # cs) w n st =
     spec_stack cs (exec c w) (if creates_snapshot c then Suc n else n) (spec_step c w n st)"

section \<open>What each call changes\<close>

lemma invoke_valid:
  "r < length (heap w) \<Longrightarrow> invoke method (Some r) w = Normal (method (heap w ! r)) w"
  by (simp add: invoke_def deref_def)

lemma heap_doSomething: "heap (world_of (doSomething rnd w)) = heap w"
  by (simp add: doSomething_def console_log_def Let_def)

lemma caretaker_doSomething: "caretaker (world_of (doSomething rnd w)) = caretaker w"
  by (simp add: doSomething_def console_log_def Let_def)

lemma world_of_save: "world_of (save now w) =
    w\<lparr>heap := heap w @ [new_ConcreteMemento (Originator.state (originator w)) now]\<rparr>"
  by (simp add: save_def)

lemma heap_restore: "heap (world_of (restore memento w)) = heap w"
  by (simp add: restore_def invoke_def console_log_def Let_def split: option.splits)

lemma caretaker_restore: "caretaker (world_of (restore memento w)) = caretaker w"
  by (simp add: restore_def invoke_def console_log_def Let_def split: option.splits)

lemma restore_valid:
  "r < length (heap w) \<Longrightarrow>
   restore (Some r) w = Normal Undefined
     (w\<lparr>originator := (originator w)\<lparr>Originator.state := getState (heap w ! r)\<rparr>,
        console := console w @
          [lit ''Originator: My state has changed to: '' @ getState (heap w ! r)]\<rparr>)"
  by (simp add: restore_def invoke_valid console_log_def)

lemma world_of_backup: "world_of (backup now w) =
   w\<lparr>console := console w @ [lit ''\<newline>Caretaker: Saving Originator's state...''],
     heap := heap w @ [new_ConcreteMemento (Originator.state (originator w)) now],
     caretaker := (caretaker w)\<lparr>mementos := mementos (caretaker w) @ [length (heap w)]\<rparr>\<rparr>"
  by (simp add: backup_def save_def push_def console_log_def)

lemma pop_snoc:
  "mementos (caretaker w) = ms @ [r] \<Longrightarrow>
   pop w = (Some r, w\<lparr>caretaker := (caretaker w)\<lparr>mementos := ms\<rparr>\<rparr>)"
  by (simp add: pop_def)

lemma undo_snoc:
  assumes "mementos (caretaker w) = ms @ [r]" and "r < length (heap w)"
  shows "undo w = Normal Undefined
     (w\<lparr>caretaker := (caretaker w)\<lparr>mementos := ms\<rparr>,
        console := console w @
          [lit ''Caretaker: Restoring state to: '' @ getName (heap w ! r),
           lit ''Originator: My state has changed to: '' @ getState (heap w ! r)],
        originator := (originator w)\<lparr>Originator.state := getState (heap w ! r)\<rparr>\<rparr>)"
  using assms
  by (simp add: undo_def pop_snoc [OF assms(1)] invoke_valid restore_valid console_log_def)

lemma heap_undo: "heap (world_of (undo w)) = heap w"
  by (simp add: undo_def pop_def invoke_def restore_def console_log_def Let_def
      split: option.splits)

lemma mementos_undo:
  "mementos (caretaker (world_of (undo w))) = butlast (mementos (caretaker w))"
  by (simp add: undo_def pop_def invoke_def restore_def deref_def console_log_def Let_def
      split: option.splits)

lemma showHistory_loop_frame:
  "heap (world_of (showHistory_loop rs w)) = heap w \<and>
   caretaker (world_of (showHistory_loop rs w)) = caretaker w \<and>
   originator (world_of (showHistory_loop rs w)) = originator w"
  by (induction rs arbitrary: w) (auto simp: invoke_def console_log_def split: option.splits)

lemma heap_showHistory: "heap (world_of (showHistory w)) = heap w"
  by (simp add: showHistory_def showHistory_loop_frame console_log_def)

lemma caretaker_showHistory: "caretaker (world_of (showHistory w)) = caretaker w"
  by (simp add: showHistory_def showHistory_loop_frame console_log_def)

lemma originator_showHistory: "originator (world_of (showHistory w)) = originator w"
  by (simp add: showHistory_def showHistory_loop_frame console_log_def)

lemma showHistory_loop_valid:
  "list_all (\<lambda>r. r < length (heap w)) rs \<Longrightarrow>
   showHistory_loop rs w =
     Normal Undefined (w\<lparr>console := console w @ map (\<lambda>r. getName (heap w ! r)) rs\<rparr>)"
proof (induction rs arbitrary: w)
  case Nil
  show ?case by simp
next
  case (Cons r rs)
  then show ?case
    by (simp add: invoke_valid console_log_def)
qed

lemma state_doSomething:
  "Originator.state (originator (world_of (doSomething rnd w))) = generateRandomString rnd 30"
  by (simp add: doSomething_def console_log_def Let_def)

lemma showHistory_valid:
  "valid_refs w \<Longrightarrow>
   showHistory w = Normal Undefined
     (w\<lparr>console := console w @ lit ''Caretaker: Here's the list of mementos:''
          # map (\<lambda>r. getName (heap w ! r)) (mementos (caretaker w))\<rparr>)"
  by (simp add: showHistory_def valid_refs_def console_log_def showHistory_loop_valid)

section \<open>The store only grows\<close>

lemma heap_exec: "\<exists>hs. heap (exec c w) = heap w @ hs"
  by (cases c)
    (simp_all add: heap_doSomething world_of_save heap_restore world_of_backup heap_undo
      heap_showHistory)

lemma heap_run: "\<exists>hs. heap (run cs w) = heap w @ hs"
proof (induction cs arbitrary: w)
  case Nil
  show ?case by simp
next
  case (Cons c cs)
  obtain hs where 1: "heap (exec c w) = heap w @ hs"
    using heap_exec by blast
  obtain hs' where 2: "heap (run cs (exec c w)) = heap (exec c w) @ hs'"
    using Cons.IH by blast
  show ?case by (simp add: 1 2)
qed

lemma run_append: "run (xs @ ys) w = run ys (run xs w)"
  by (induction xs arbitrary: w) simp_all

section \<open>The array of the caretaker\<close>

lemma sorted_wrt_butlast: "sorted_wrt P xs \<Longrightarrow> sorted_wrt P (butlast xs)"
  by (induction xs) (auto dest: in_set_butlastD)

lemma ordered_exec:
  assumes "sorted_wrt (<) (mementos (caretaker w)) \<and> valid_refs w"
  shows "sorted_wrt (<) (mementos (caretaker (exec c w))) \<and> valid_refs (exec c w)"
proof (cases c)
  case (Backup now)
  then show ?thesis using assms
    by (auto simp: valid_refs_def world_of_backup sorted_wrt_append list_all_iff)
next
  case Undo
  then show ?thesis using assms
    by (auto simp: valid_refs_def mementos_undo heap_undo sorted_wrt_butlast list_all_iff
        dest: in_set_butlastD)
qed (use assms in \<open>auto simp: valid_refs_def heap_doSomething caretaker_doSomething world_of_save
       heap_restore caretaker_restore heap_showHistory caretaker_showHistory list_all_iff\<close>)

lemma ordered_initial: "sorted_wrt (<) (mementos (caretaker (initial s))) \<and> valid_refs (initial s)"
  by (simp add: valid_refs_def initial_def console_log_def)

lemma reachable_ordered:
  "reachable w \<Longrightarrow> sorted_wrt (<) (mementos (caretaker w)) \<and> valid_refs w"
  by (induction rule: reachable.induct) (simp_all add: ordered_initial ordered_exec)


lemma push_phase:
  "list_all (\<lambda>c. is_Backup c \<or> is_DoSomething c) cs \<Longrightarrow>
   \<exists>rs hs. mementos (caretaker (run cs w)) = mementos (caretaker w) @ rs \<and>
     length rs = length (filter is_Backup cs) \<and>
     heap (run cs w) = heap w @ hs \<and>
     list_all (\<lambda>r. r < length (heap w @ hs)) rs"
proof (induction cs arbitrary: w)
  case Nil
  show ?case by simp
next
  case (Cons c cs)
  from Cons.prems have cs: "list_all (\<lambda>c. is_Backup c \<or> is_DoSomething c) cs"
    by simp
  obtain rs hs where ih:
    "mementos (caretaker (run cs (exec c w))) = mementos (caretaker (exec c w)) @ rs"
    "length rs = length (filter is_Backup cs)"
    "heap (run cs (exec c w)) = heap (exec c w) @ hs"
    "list_all (\<lambda>r. r < length (heap (exec c w) @ hs)) rs"
    using Cons.IH [OF cs, of "exec c w"] by blast
  show ?case
  proof (cases c)
    case (Backup now)
    let ?m = "new_ConcreteMemento (Originator.state (originator w)) now"
    have "mementos (caretaker (run (c # cs) w)) = mementos (caretaker w) @ (length (heap w) # rs)"
      using ih(1) Backup by (simp add: world_of_backup)
    moreover have "length (length (heap w) # rs) = length (filter is_Backup (c # cs))"
      using ih(2) Backup by simp
    moreover have "heap (run (c # cs) w) = heap w @ (?m # hs)"
      using ih(3) Backup by (simp add: world_of_backup)
    moreover have "list_all (\<lambda>r. r < length (heap w @ (?m # hs))) (length (heap w) # rs)"
      using ih(4) Backup by (simp add: world_of_backup)
    ultimately show ?thesis by blast
  next
    case (DoSomething rnd)
    have "mementos (caretaker (run (c # cs) w)) = mementos (caretaker w) @ rs"
      using ih(1) DoSomething by (simp add: caretaker_doSomething)
    moreover have "length rs = length (filter is_Backup (c # cs))"
      using ih(2) DoSomething by simp
    moreover have "heap (run (c # cs) w) = heap w @ hs"
      using ih(3) DoSomething by (simp add: heap_doSomething)
    moreover have "list_all (\<lambda>r. r < length (heap w @ hs)) rs"
      using ih(4) DoSomething by (simp add: heap_doSomething)
    ultimately show ?thesis by blast
  qed (use Cons.prems in simp_all)
qed

lemma pop_phase:
  "mementos (caretaker w) = base @ rs \<Longrightarrow> list_all (\<lambda>r. r < length (heap w)) rs \<Longrightarrow>
   mementos (caretaker (run (replicate (length rs) Undo) w)) = base \<and>
   heap (run (replicate (length rs) Undo) w) = heap w \<and>
   (rs \<noteq> [] \<longrightarrow> Originator.state (originator (run (replicate (length rs) Undo) w))
        = getState (heap w ! hd rs))"
proof (induction rs arbitrary: w rule: rev_induct)
  case Nil
  then show ?case by simp
next
  case (snoc r rs)
  let ?w1 = "world_of (undo w)"
  have m: "mementos (caretaker w) = (base @ rs) @ [r]" and r: "r < length (heap w)"
    using snoc.prems by simp_all
  note u = undo_snoc [OF m r]
  have 1: "mementos (caretaker ?w1) = base @ rs" by (simp add: u)
  have 2: "heap ?w1 = heap w" by (simp add: u)
  have 3: "Originator.state (originator ?w1) = getState (heap w ! r)"
    by (simp add: u)
  have 4: "list_all (\<lambda>r. r < length (heap ?w1)) rs"
    using snoc.prems(2) by (simp add: 2)
  note ih = snoc.IH [OF 1 4]
  have run: "run (replicate (length (rs @ [r])) Undo) w = run (replicate (length rs) Undo) ?w1"
    by simp
  show ?case
  proof (cases "rs = []")
    case True
    then show ?thesis using 1 2 3 by simp
  next
    case False
    then show ?thesis using ih 2 unfolding run by simp
  qed
qed

lemma ordered_run:
  "sorted_wrt (<) (mementos (caretaker w)) \<and> valid_refs w \<Longrightarrow>
   sorted_wrt (<) (mementos (caretaker (run cs w))) \<and> valid_refs (run cs w)"
  by (induction cs arbitrary: w) (simp_all add: ordered_exec del: exec.simps)

lemma reachable_run: "reachable w \<Longrightarrow> reachable (run cs w)"
  by (induction cs arbitrary: w) (simp_all add: reachable.intros del: exec.simps)

lemma reachable_is_run: "reachable w \<Longrightarrow> \<exists>s cs. w = run cs (initial s)"
proof (induction rule: reachable.induct)
  case (reachable_initial s)
  have "initial s = run [] (initial s)" by simp
  then show ?case by blast
next
  case (reachable_exec w c)
  then obtain s cs where "w = run cs (initial s)" by blast
  then have "exec c w = run (cs @ [c]) (initial s)"
    by (simp add: run_append del: exec.simps)
  then show ?case by blast
qed

lemma mementos_run_no_capture:
  "list_all (\<lambda>c. \<not> is_Backup c \<and> \<not> is_Undo c) cs \<Longrightarrow>
   mementos (caretaker (run cs w)) = mementos (caretaker w)"
proof (induction cs arbitrary: w)
  case Nil
  show ?case by simp
next
  case (Cons c cs)
  then have "mementos (caretaker (run cs (exec c w))) = mementos (caretaker (exec c w))"
    by simp
  moreover have "mementos (caretaker (exec c w)) = mementos (caretaker w)"
    using Cons.prems
    by (cases c)
      (simp_all add: caretaker_doSomething world_of_save caretaker_restore caretaker_showHistory)
  ultimately show ?case by simp
qed

section \<open>The array against the stack of the specification\<close>

lemma entries_exec:
  assumes "valid_refs w"
  shows "entries (exec c w) = spec_step c w (length (heap w)) (entries w) \<and>
         length (heap (exec c w))
           = (if creates_snapshot c then Suc (length (heap w)) else length (heap w))"
proof (cases c)
  case (Backup now)
  then show ?thesis using assms
    by (simp add: entries_def world_of_backup valid_refs_def list_all_iff nth_append
        new_ConcreteMemento_def getState_def)
next
  case (Save now)
  then show ?thesis using assms
    by (simp add: entries_def world_of_save valid_refs_def list_all_iff nth_append)
next
  case Undo
  then show ?thesis
    by (simp add: entries_def mementos_undo heap_undo map_butlast)
qed (simp_all add: entries_def heap_doSomething caretaker_doSomething heap_restore
      caretaker_restore heap_showHistory caretaker_showHistory)

lemma entries_run:
  "sorted_wrt (<) (mementos (caretaker w)) \<and> valid_refs w \<Longrightarrow>
   entries (run cs w) = spec_stack cs w (length (heap w)) (entries w)"
proof (induction cs arbitrary: w)
  case Nil
  show ?case by simp
next
  case (Cons c cs)
  have v: "valid_refs w" using Cons.prems by simp
  note e = entries_exec [OF v, of c]
  have "entries (run cs (exec c w))
      = spec_stack cs (exec c w) (length (heap (exec c w))) (entries (exec c w))"
    using Cons.IH [OF ordered_exec [OF Cons.prems]] .
  then show ?case
    using e by (simp del: exec.simps)
qed

section \<open>The claims\<close>

text \<open>
  C1 (round-trip undo law).  From any world, a call of \<^verbatim>\<open>backup()\<close>, then any sequence
  \<open>cs\<close> of further \<^verbatim>\<open>backup()\<close> and \<^verbatim>\<open>doSomething()\<close> calls, then as many
  \<^verbatim>\<open>undo()\<close> calls as there were \<^verbatim>\<open>backup()\<close> calls (one more than \<open>cs\<close> holds):
  the state of the Originator is the one it had before the first \<^verbatim>\<open>backup()\<close>, and
  the caretaker's array is the one it was.
\<close>

theorem undo_round_trip:
  assumes "list_all (\<lambda>c. is_Backup c \<or> is_DoSomething c) cs"
  shows "Originator.state (originator
      (run (Backup now # cs @ replicate (Suc (length (filter is_Backup cs))) Undo) w))
    = Originator.state (originator w) \<and>
    mementos (caretaker
      (run (Backup now # cs @ replicate (Suc (length (filter is_Backup cs))) Undo) w))
    = mementos (caretaker w)"
proof -
  let ?w1 = "exec (Backup now) w"
  let ?r0 = "length (heap w)"
  let ?m0 = "new_ConcreteMemento (Originator.state (originator w)) now"
  obtain rs hs where p:
    "mementos (caretaker (run cs ?w1)) = mementos (caretaker ?w1) @ rs"
    "length rs = length (filter is_Backup cs)"
    "heap (run cs ?w1) = heap ?w1 @ hs"
    "list_all (\<lambda>r. r < length (heap ?w1 @ hs)) rs"
    using push_phase [OF assms, of ?w1] by blast
  let ?w2 = "run cs ?w1"
  have m: "mementos (caretaker ?w2) = mementos (caretaker w) @ (?r0 # rs)"
    using p(1) by (simp add: world_of_backup)
  have h: "heap ?w2 = heap w @ ?m0 # hs"
    using p(3) by (simp add: world_of_backup)
  have v: "list_all (\<lambda>r. r < length (heap ?w2)) (?r0 # rs)"
    unfolding h using p(4) by (simp add: world_of_backup)
  have n: "Suc (length (filter is_Backup cs)) = length (?r0 # rs)"
    using p(2) by simp
  have "heap ?w2 ! ?r0 = ?m0" unfolding h by simp
  then have s: "getState (heap ?w2 ! hd (?r0 # rs)) = Originator.state (originator w)"
    by (simp add: new_ConcreteMemento_def getState_def)
  have e: "run (Backup now # cs @ replicate (Suc (length (filter is_Backup cs))) Undo) w
      = run (replicate (length (?r0 # rs)) Undo) ?w2"
    unfolding n by (simp add: run_append del: replicate.simps)
  show ?thesis
    unfolding e using pop_phase [OF m v] s by simp
qed

theorem undo_round_trip_witness:
  "list_all (\<lambda>c. is_Backup c \<or> is_DoSomething c)
     [DoSomething example_rnd, Backup example_now, DoSomething example_rnd] \<and>
   Originator.state (originator
     (run (Backup example_now
         # [DoSomething example_rnd, Backup example_now, DoSomething example_rnd]
         @ replicate (Suc (length (filter is_Backup
             [DoSomething example_rnd, Backup example_now, DoSomething example_rnd]))) Undo)
       (initial client_state)))
     = client_state"
  using undo_round_trip
    [of "[DoSomething example_rnd, Backup example_now, DoSomething example_rnd]"
      example_now "initial client_state"]
  by (simp add: initial_def console_log_def)

text \<open>
  C2 (strict LIFO).  In the world \<open>w\<close> that any sequence \<open>cs\<close> of calls brings about
  from the initial world, the array of the caretaker is the stack \<open>h\<close> of the
  specification for \<open>cs\<close>: it holds exactly the snapshots taken by the \<^verbatim>\<open>backup()\<close>
  calls that no \<^verbatim>\<open>undo()\<close> has consumed, in the order of those calls, each with
  the state the Originator had at its capture.  The references are in strictly increasing
  order of creation and refer to objects of the store.  When the stack is not empty,
  \<^verbatim>\<open>undo()\<close> returns normally, removes exactly the snapshot of the most recent
  unconsumed capture, leaves the stack without it, and gives the Originator the state of
  that capture.
\<close>

theorem lifo_discipline:
  "w = run cs (initial s) \<Longrightarrow> h = spec_stack cs (initial s) 0 [] \<Longrightarrow>
     entries w = h \<and>
     sorted_wrt (<) (mementos (caretaker w)) \<and>
     list_all (\<lambda>r. r < length (heap w)) (mementos (caretaker w)) \<and>
     (h \<noteq> [] \<longrightarrow>
        value_of (undo w) = Some Undefined \<and>
        mementos (caretaker (world_of (undo w))) @ [fst (last h)] = mementos (caretaker w) \<and>
        list_all (\<lambda>r. r < fst (last h)) (mementos (caretaker (world_of (undo w)))) \<and>
        entries (world_of (undo w)) = butlast h \<and>
        Originator.state (originator (world_of (undo w))) = snd (last h) \<and>
        heap (world_of (undo w)) = heap w)"
proof -
  assume w: "w = run cs (initial s)" and h: "h = spec_stack cs (initial s) 0 []"
  have "entries (initial s) = []" and "length (heap (initial s)) = 0"
    by (simp_all add: entries_def initial_def console_log_def)
  then have e: "entries w = h"
    using entries_run [OF ordered_initial, of cs s] by (simp add: w h)
  have o: "sorted_wrt (<) (mementos (caretaker w)) \<and> valid_refs w"
    unfolding w using ordered_initial by (rule ordered_run)
  then have s: "sorted_wrt (<) (mementos (caretaker w))"
    and v: "list_all (\<lambda>r. r < length (heap w)) (mementos (caretaker w))"
    by (simp_all add: valid_refs_def)
  have "value_of (undo w) = Some Undefined \<and>
        mementos (caretaker (world_of (undo w))) @ [fst (last h)] = mementos (caretaker w) \<and>
        list_all (\<lambda>r. r < fst (last h)) (mementos (caretaker (world_of (undo w)))) \<and>
        entries (world_of (undo w)) = butlast h \<and>
        Originator.state (originator (world_of (undo w))) = snd (last h) \<and>
        heap (world_of (undo w)) = heap w"
    if "h \<noteq> []"
  proof -
    let ?ms = "butlast (mementos (caretaker w))" and ?r = "last (mementos (caretaker w))"
    have ne: "mementos (caretaker w) \<noteq> []"
      using that e by (auto simp: entries_def)
    have m: "mementos (caretaker w) = ?ms @ [?r]"
      using ne by simp
    have r: "?r < length (heap w)"
      using v ne by (simp add: list_all_iff)
    have l: "last h = (?r, getState (heap w ! ?r))"
      using ne e [symmetric] by (simp add: entries_def last_map)
    have "sorted_wrt (<) (?ms @ [?r])"
      using s m by simp
    then have lt: "list_all (\<lambda>a. a < ?r) ?ms"
      by (simp add: sorted_wrt_append list_all_iff)
    have b: "entries (world_of (undo w)) = butlast h"
      using entries_exec [of w Undo] o e by simp
    show ?thesis
      using lt m b by (simp add: l undo_snoc [OF m r])
  qed
  with e s v show ?thesis by blast
qed

theorem lifo_discipline_witness:
  "spec_stack
     [Backup example_now, DoSomething example_rnd, Backup example_later,
      DoSomething example_rnd2, Backup example_now, DoSomething example_rnd]
     (initial client_state) 0 []
     = [(0, client_state), (1, generateRandomString example_rnd 30),
        (2, generateRandomString example_rnd2 30)] \<and>
   mementos (caretaker (world_of (undo (run
     [Backup example_now, DoSomething example_rnd, Backup example_later,
      DoSomething example_rnd2, Backup example_now, DoSomething example_rnd]
     (initial client_state))))) = [0, 1] \<and>
   Originator.state (originator (run
     [Backup example_now, DoSomething example_rnd, Backup example_later,
      DoSomething example_rnd2, Backup example_now, DoSomething example_rnd]
     (initial client_state))) = generateRandomString example_rnd 30 \<and>
   Originator.state (originator (world_of (undo (run
     [Backup example_now, DoSomething example_rnd, Backup example_later,
      DoSomething example_rnd2, Backup example_now, DoSomething example_rnd]
     (initial client_state))))) = generateRandomString example_rnd2 30 \<and>
   generateRandomString example_rnd2 30 \<noteq> generateRandomString example_rnd 30"
proof -
  let ?cs = "[Backup example_now, DoSomething example_rnd, Backup example_later,
      DoSomething example_rnd2, Backup example_now, DoSomething example_rnd]"
  let ?w = "run ?cs (initial client_state)"
  have h: "spec_stack ?cs (initial client_state) 0 []
     = [(0, client_state), (1, generateRandomString example_rnd 30),
        (2, generateRandomString example_rnd2 30)]"
    by (simp add: world_of_backup state_doSomething initial_def console_log_def)
  have m: "mementos (caretaker ?w) = [0, 1, 2]"
    by (simp add: world_of_backup caretaker_doSomething heap_doSomething initial_def
        console_log_def)
  have c: "Originator.state (originator ?w) = generateRandomString example_rnd 30"
    by (simp add: state_doSomething)
  have d: "generateRandomString example_rnd2 30 \<noteq> generateRandomString example_rnd 30"
    by (simp add: generateRandomString_def example_rnd_def example_rnd2_def charAt_def
        charSet_def lit_def upt_rec)
  show ?thesis
    using lifo_discipline [OF refl refl, of ?cs client_state] c d
    unfolding h m by (simp del: run.simps)
qed

text \<open>
  C3 (\<^verbatim>\<open>restore\<close> without a memento).  \<^verbatim>\<open>restore(null)\<close> throws, and the world at
  the throw is the world before the call: the state of the Originator is untouched and
  nothing is logged.  The error is the \<^verbatim>\<open>TypeError\<close> of the call
  \<^verbatim>\<open>memento.getState()\<close>, which is evaluated before the assignment.  For every
  argument the call is atomic: it throws and changes nothing, or it returns and the state
  of the Originator is what \<^verbatim>\<open>getState()\<close> of the memento gave.
\<close>

theorem restore_null_raises:
  "restore None w = Raised TypeError w \<and>
   (case restore memento w of
      Raised e u \<Rightarrow> e = TypeError \<and> u = w \<and> deref w memento = None
    | Normal v u \<Rightarrow>
        invoke getState memento w = Normal (Originator.state (originator u)) w)"
  by (simp add: restore_def invoke_def deref_def console_log_def split: option.splits)

text \<open>
  C4 (\<^verbatim>\<open>undo\<close> on an empty array).  \<^verbatim>\<open>undo()\<close> returns normally and the world is
  unchanged: the state of the Originator is the same, the array is still empty, nothing
  is logged.
\<close>

theorem undo_empty_noop:
  "mementos (caretaker w) = [] \<Longrightarrow>
   undo w = Normal Undefined w \<and> mementos (caretaker (world_of (undo w))) = [] \<and>
   originator (world_of (undo w)) = originator w"
  by (simp add: undo_def)

theorem undo_empty_noop_witness:
  "mementos (caretaker (initial client_state)) = [] \<and>
   undo (initial client_state) = Normal Undefined (initial client_state) \<and>
   Originator.state (originator (world_of (undo (initial client_state)))) = client_state"
proof -
  have e: "mementos (caretaker (initial client_state)) = []"
    by (simp add: initial_def console_log_def)
  have s: "Originator.state (originator (initial client_state)) = client_state"
    by (simp add: initial_def console_log_def)
  show ?thesis
    using undo_empty_noop [OF e] e s by simp
qed

text \<open>
  C5 (frame of \<^verbatim>\<open>backup\<close>).  \<^verbatim>\<open>backup()\<close> returns normally; the array is the old
  array with one reference appended, the reference of the object just created; the
  objects the store held are unchanged; the Originator is unchanged; and
  \<^verbatim>\<open>getState()\<close> of the new memento is the state of the Originator at the call.
\<close>

theorem backup_frame:
  "backup now w = Normal Undefined (world_of (backup now w)) \<and>
   mementos (caretaker (world_of (backup now w)))
     = mementos (caretaker w) @ [length (heap w)] \<and>
   length (mementos (caretaker (world_of (backup now w))))
     = length (mementos (caretaker w)) + 1 \<and>
   take (length (heap w)) (heap (world_of (backup now w))) = heap w \<and>
   length (heap (world_of (backup now w))) = length (heap w) + 1 \<and>
   originator (world_of (backup now w)) = originator w \<and>
   invoke getState (Some (last (mementos (caretaker (world_of (backup now w))))))
       (world_of (backup now w))
     = Normal (Originator.state (originator w)) (world_of (backup now w))"
proof -
  have "backup now w = Normal Undefined (world_of (backup now w))"
    by (simp add: backup_def save_def Let_def)
  then show ?thesis
    by (simp add: world_of_backup invoke_valid new_ConcreteMemento_def getState_def)
qed

text \<open>
  C6 (\<^verbatim>\<open>showHistory\<close>), as the code has it.  The method is declared \<^verbatim>\<open>void\<close>: in
  every reachable world it returns \<open>Undefined\<close> and changes nothing but the console, to
  which it appends its heading line and then exactly the names of the mementos of the
  array, first element (the oldest) first.  After any calls other than \<^verbatim>\<open>backup()\<close>
  and \<^verbatim>\<open>undo()\<close>, among them \<^verbatim>\<open>showHistory()\<close> itself, it appends the same lines
  again.
\<close>

theorem showHistory_labels:
  "reachable w \<Longrightarrow> list_all (\<lambda>c. \<not> is_Backup c \<and> \<not> is_Undo c) cs \<Longrightarrow>
   showHistory w = Normal Undefined
     (w\<lparr>console := console w @ lit ''Caretaker: Here's the list of mementos:''
          # map (\<lambda>r. getName (heap w ! r)) (mementos (caretaker w))\<rparr>) \<and>
   value_of (showHistory w) = Some Undefined \<and>
   caretaker (world_of (showHistory w)) = caretaker w \<and>
   originator (world_of (showHistory w)) = originator w \<and>
   heap (world_of (showHistory w)) = heap w \<and>
   console (world_of (showHistory (world_of (showHistory w))))
     = console (world_of (showHistory w))
       @ lit ''Caretaker: Here's the list of mementos:''
         # map (\<lambda>r. getName (heap w ! r)) (mementos (caretaker w)) \<and>
   value_of (showHistory (run cs w)) = Some Undefined \<and>
   console (world_of (showHistory (run cs w)))
     = console (run cs w)
       @ lit ''Caretaker: Here's the list of mementos:''
         # map (\<lambda>r. getName (heap w ! r)) (mementos (caretaker w))"
proof -
  assume re: "reachable w" and cs: "list_all (\<lambda>c. \<not> is_Backup c \<and> \<not> is_Undo c) cs"
  have v: "valid_refs w"
    using re reachable_ordered by blast
  have 2: "valid_refs (world_of (showHistory w))"
    using v by (simp add: valid_refs_def heap_showHistory caretaker_showHistory)
  have 3: "valid_refs (run cs w)"
    using reachable_run [OF re, of cs] reachable_ordered by blast
  have m: "mementos (caretaker (run cs w)) = mementos (caretaker w)"
    using cs by (rule mementos_run_no_capture)
  obtain hs where hs: "heap (run cs w) = heap w @ hs"
    using heap_run by blast
  have n: "map (\<lambda>r. getName (heap (run cs w) ! r)) (mementos (caretaker w))
      = map (\<lambda>r. getName (heap w ! r)) (mementos (caretaker w))"
    using v by (simp add: hs valid_refs_def list_all_iff nth_append)
  have 4: "showHistory (run cs w) = Normal Undefined
     ((run cs w)\<lparr>console := console (run cs w) @ lit ''Caretaker: Here's the list of mementos:''
          # map (\<lambda>r. getName (heap w ! r)) (mementos (caretaker w))\<rparr>)"
    using showHistory_valid [OF 3] unfolding m n .
  show ?thesis
    using showHistory_valid [OF v] showHistory_valid [OF 2] 4
    by (simp add: heap_showHistory caretaker_showHistory)
qed

theorem showHistory_labels_witness:
  "reachable (exec (Backup example_later) (exec (DoSomething example_rnd)
      (exec (Backup example_now) (initial (lit ''A''))))) \<and>
   list_all (\<lambda>c. \<not> is_Backup c \<and> \<not> is_Undo c)
     [DoSomething example_rnd2, Save example_now, ShowHistory, Restore (Some 0)] \<and>
   console (world_of (showHistory
       (run [DoSomething example_rnd2, Save example_now, ShowHistory, Restore (Some 0)]
         (exec (Backup example_later) (exec (DoSomething example_rnd)
           (exec (Backup example_now) (initial (lit ''A''))))))))
     = console (run [DoSomething example_rnd2, Save example_now, ShowHistory, Restore (Some 0)]
         (exec (Backup example_later) (exec (DoSomething example_rnd)
           (exec (Backup example_now) (initial (lit ''A''))))))
       @ [lit ''Caretaker: Here's the list of mementos:'',
          lit ''2024-01-02 03:04:05 / (A...)'', lit ''2024-01-02 03:04:06 / (dkryFMTah...)'']"
proof -
  let ?w = "exec (Backup example_later) (exec (DoSomething example_rnd)
      (exec (Backup example_now) (initial (lit ''A''))))"
  let ?cs = "[DoSomething example_rnd2, Save example_now, ShowHistory, Restore (Some 0)]"
  have re: "reachable ?w"
    by (intro reachable.intros)
  have cs: "list_all (\<lambda>c. \<not> is_Backup c \<and> \<not> is_Undo c) ?cs"
    by simp
  have m: "mementos (caretaker ?w) = [0, 1]"
    by (simp add: world_of_backup caretaker_doSomething heap_doSomething initial_def
        console_log_def)
  have g: "take 9 (generateRandomString example_rnd 30) = lit ''dkryFMTah''"
    by (simp add: generateRandomString_def example_rnd_def charAt_def charSet_def lit_def
        upt_rec)
  have n: "map (\<lambda>r. getName (heap ?w ! r)) [0, 1]
      = [lit ''2024-01-02 03:04:05 / (A...)'', lit ''2024-01-02 03:04:06 / (dkryFMTah...)'']"
    by (simp add: world_of_backup heap_doSomething state_doSomething initial_def
        console_log_def getName_def new_ConcreteMemento_def example_now_def example_later_def
        slice_string_def substr_def g)
      (simp add: lit_def)
  show ?thesis
    using showHistory_labels [OF re cs] re cs unfolding m n by (simp del: exec.simps run.simps)
qed

text \<open>
  The claim as the specification words it fails: \<^verbatim>\<open>showHistory()\<close> gives its caller
  \<open>Undefined\<close>, not a sequence of labels, and what it writes is not exactly the labels:
  with two mementos in the array it logs three lines, the heading first, and with an
  empty array it still logs the heading.
\<close>

theorem showHistory_logs_heading:
  "value_of (showHistory (world_of (backup example_later (world_of (doSomething example_rnd
      (world_of (backup example_now (initial (lit ''A''))))))))) = Some Undefined \<and>
   console (world_of (showHistory (world_of (backup example_later
      (world_of (doSomething example_rnd
        (world_of (backup example_now (initial (lit ''A'')))))))))) 
     = console (world_of (backup example_later (world_of (doSomething example_rnd
        (world_of (backup example_now (initial (lit ''A''))))))))
       @ [lit ''Caretaker: Here's the list of mementos:'',
          lit ''2024-01-02 03:04:05 / (A...)'', lit ''2024-01-02 03:04:06 / (dkryFMTah...)''] \<and>
   console (world_of (showHistory (world_of (backup example_later
      (world_of (doSomething example_rnd
        (world_of (backup example_now (initial (lit ''A''))))))))))
     \<noteq> console (world_of (backup example_later (world_of (doSomething example_rnd
        (world_of (backup example_now (initial (lit ''A''))))))))
       @ [lit ''2024-01-02 03:04:05 / (A...)'', lit ''2024-01-02 03:04:06 / (dkryFMTah...)''] \<and>
   console (world_of (showHistory (initial (lit ''A''))))
     = console (initial (lit ''A'')) @ [lit ''Caretaker: Here's the list of mementos:'']"
proof -
  let ?w = "world_of (backup example_later (world_of (doSomething example_rnd
      (world_of (backup example_now (initial (lit ''A'')))))))"
  have v: "valid_refs ?w"
    by (simp add: valid_refs_def world_of_backup caretaker_doSomething heap_doSomething
        initial_def console_log_def)
  have m: "mementos (caretaker ?w) = [0, 1]"
    by (simp add: world_of_backup caretaker_doSomething heap_doSomething initial_def
        console_log_def)
  have g: "take 9 (generateRandomString example_rnd 30) = lit ''dkryFMTah''"
    by (simp add: generateRandomString_def example_rnd_def charAt_def charSet_def lit_def
        upt_rec)
  have n: "map (\<lambda>r. getName (heap ?w ! r)) [0, 1]
      = [lit ''2024-01-02 03:04:05 / (A...)'', lit ''2024-01-02 03:04:06 / (dkryFMTah...)'']"
    by (simp add: world_of_backup heap_doSomething state_doSomething initial_def
        console_log_def getName_def new_ConcreteMemento_def example_now_def example_later_def
        slice_string_def substr_def g)
      (simp add: lit_def)
  have e: "valid_refs (initial (lit ''A''))"
    by (simp add: valid_refs_def initial_def console_log_def)
  have i: "mementos (caretaker (initial (lit ''A''))) = []"
    by (simp add: initial_def console_log_def)
  have 1: "console (world_of (showHistory ?w)) = console ?w
       @ [lit ''Caretaker: Here's the list of mementos:'',
          lit ''2024-01-02 03:04:05 / (A...)'', lit ''2024-01-02 03:04:06 / (dkryFMTah...)'']"
    and 2: "value_of (showHistory ?w) = Some Undefined"
    using showHistory_valid [OF v] unfolding m n by simp_all
  have 3: "console (world_of (showHistory (initial (lit ''A''))))
     = console (initial (lit ''A'')) @ [lit ''Caretaker: Here's the list of mementos:'']"
    using showHistory_valid [OF e] unfolding i by simp
  have 4: "console (world_of (showHistory ?w)) \<noteq> console ?w
       @ [lit ''2024-01-02 03:04:05 / (A...)'', lit ''2024-01-02 03:04:06 / (dkryFMTah...)'']"
    unfolding 1 by simp
  from 1 2 3 4 show ?thesis by blast
qed

text \<open>
  C7 (what \<^verbatim>\<open>undo\<close> does on a non-empty array), as the code has it.  In every
  reachable world with a non-empty array, \<^verbatim>\<open>undo()\<close> removes the last element from the
  array, logs the name of that memento, and calls \<^verbatim>\<open>restore\<close> with it, which gives
  the Originator the state stored in the memento.  The method is declared \<^verbatim>\<open>void\<close>:
  the caller receives \<open>Undefined\<close>, neither the memento nor its name; the name only
  goes to the console.
\<close>

theorem undo_pops_and_restores:
  "reachable w \<Longrightarrow> mementos (caretaker w) \<noteq> [] \<Longrightarrow>
   undo w =
     restore (Some (last (mementos (caretaker w))))
       (console_log (lit ''Caretaker: Restoring state to: ''
            @ getName (heap w ! last (mementos (caretaker w))))
          (w\<lparr>caretaker := (caretaker w)\<lparr>mementos := butlast (mementos (caretaker w))\<rparr>\<rparr>)) \<and>
   value_of (undo w) = Some Undefined \<and>
   mementos (caretaker (world_of (undo w))) = butlast (mementos (caretaker w)) \<and>
   Originator.state (originator (world_of (undo w)))
     = getState (heap w ! last (mementos (caretaker w))) \<and>
   console (world_of (undo w)) = console w @
     [lit ''Caretaker: Restoring state to: '' @ getName (heap w ! last (mementos (caretaker w))),
      lit ''Originator: My state has changed to: ''
        @ getState (heap w ! last (mementos (caretaker w)))]"
proof -
  assume re: "reachable w" and ne: "mementos (caretaker w) \<noteq> []"
  let ?ms = "butlast (mementos (caretaker w))" and ?r = "last (mementos (caretaker w))"
  have "valid_refs w"
    using re reachable_ordered by blast
  then have r: "?r < length (heap w)"
    using ne by (simp add: valid_refs_def list_all_iff)
  have m: "mementos (caretaker w) = ?ms @ [?r]"
    using ne by simp
  have 1: "undo w = restore (Some ?r)
       (console_log (lit ''Caretaker: Restoring state to: '' @ getName (heap w ! ?r))
          (w\<lparr>caretaker := (caretaker w)\<lparr>mementos := ?ms\<rparr>\<rparr>))"
    using ne r by (simp add: undo_def pop_def invoke_valid)
  show ?thesis
    unfolding 1 [symmetric] by (simp add: undo_snoc [OF m r])
qed

theorem undo_pops_and_restores_witness:
  "reachable (exec (Backup example_now) (initial (lit ''A''))) \<and>
   mementos (caretaker (exec (Backup example_now) (initial (lit ''A'')))) \<noteq> [] \<and>
   value_of (undo (exec (Backup example_now) (initial (lit ''A'')))) = Some Undefined \<and>
   mementos (caretaker (world_of (undo (exec (Backup example_now) (initial (lit ''A'')))))) = [] \<and>
   Originator.state (originator (world_of (undo (exec (Backup example_now)
     (initial (lit ''A'')))))) = lit ''A''"
proof -
  let ?w = "exec (Backup example_now) (initial (lit ''A''))"
  have re: "reachable ?w"
    by (intro reachable.intros)
  have m: "mementos (caretaker ?w) = [0]"
    by (simp add: world_of_backup initial_def console_log_def)
  have ne: "mementos (caretaker ?w) \<noteq> []"
    unfolding m by simp
  have s: "getState (heap ?w ! 0) = lit ''A''"
    by (simp add: world_of_backup initial_def console_log_def new_ConcreteMemento_def
        getState_def)
  show ?thesis
    using undo_pops_and_restores [OF re ne, THEN conjunct2] re s unfolding m
    by (simp del: exec.simps)
qed

text \<open>
  The claim as the specification words it fails: after one \<^verbatim>\<open>backup()\<close> the array
  holds the reference 0, and \<^verbatim>\<open>undo()\<close> returns \<open>Undefined\<close>, which is neither that
  memento nor its name.
\<close>

theorem undo_returns_nothing:
  "mementos (caretaker (world_of (backup example_now (initial (lit ''A''))))) = [0] \<and>
   value_of (undo (world_of (backup example_now (initial (lit ''A''))))) = Some Undefined \<and>
   value_of (undo (world_of (backup example_now (initial (lit ''A''))))) \<noteq> Some (Object 0) \<and>
   value_of (undo (world_of (backup example_now (initial (lit ''A'')))))
     \<noteq> Some (String (getName (heap (world_of (backup example_now (initial (lit ''A'')))) ! 0)))"
proof -
  let ?w = "world_of (backup example_now (initial (lit ''A'')))"
  have m: "mementos (caretaker ?w) = [] @ [0]"
    by (simp add: world_of_backup initial_def console_log_def)
  have h: "0 < length (heap ?w)"
    by (simp add: world_of_backup initial_def console_log_def)
  have "value_of (undo ?w) = Some Undefined"
    by (simp add: undo_snoc [OF m h])
  then show ?thesis
    using m by simp
qed

text \<open>
  C8 (a memento never changes).  The object a reference of the store refers to is the
  same after any sequence of calls of \<^verbatim>\<open>doSomething\<close>, \<^verbatim>\<open>save\<close>, \<^verbatim>\<open>restore\<close>,
  \<^verbatim>\<open>backup\<close>, \<^verbatim>\<open>undo\<close> and \<^verbatim>\<open>showHistory\<close>, so \<^verbatim>\<open>getState()\<close> returns what it
  returned before them.  In particular the memento that \<^verbatim>\<open>save()\<close> has just created
  keeps the state the Originator had at that call, whatever happens to the Originator
  afterwards.
\<close>

theorem memento_immutable:
  "(r < length (heap w) \<longrightarrow>
      invoke getState (Some r) w = Normal (getState (heap w ! r)) w \<and>
      invoke getState (Some r) (run cs w) = Normal (getState (heap w ! r)) (run cs w) \<and>
      heap (run cs w) ! r = heap w ! r) \<and>
   value_of (save now w) = Some (length (heap w)) \<and>
   invoke getState (Some (length (heap w))) (run cs (world_of (save now w)))
     = Normal (Originator.state (originator w)) (run cs (world_of (save now w)))"
proof -
  have nth: "r < length (heap u) \<Longrightarrow> r < length (heap (run cs u)) \<and> heap (run cs u) ! r = heap u ! r"
    for r u
    using heap_run [of cs u] by (auto simp: nth_append)
  have 1: "r < length (heap w) \<longrightarrow>
      invoke getState (Some r) w = Normal (getState (heap w ! r)) w \<and>
      invoke getState (Some r) (run cs w) = Normal (getState (heap w ! r)) (run cs w) \<and>
      heap (run cs w) ! r = heap w ! r"
    using nth [of r w] by (simp add: invoke_valid)
  let ?u = "world_of (save now w)"
  have "length (heap w) < length (heap ?u)"
    by (simp add: world_of_save)
  from nth [OF this]
  have 2: "invoke getState (Some (length (heap w))) (run cs ?u)
     = Normal (Originator.state (originator w)) (run cs ?u)"
    by (simp add: invoke_valid world_of_save new_ConcreteMemento_def getState_def)
  have 3: "value_of (save now w) = Some (length (heap w))"
    by (simp add: save_def)
  from 1 2 3 show ?thesis by blast
qed

theorem memento_immutable_witness:
  "(0::nat) < length (heap (world_of (backup example_now (initial (lit ''A''))))) \<and>
   invoke getState (Some 0)
       (run [DoSomething example_rnd, Backup example_now, Undo, Undo, Restore None]
          (world_of (backup example_now (initial (lit ''A'')))))
     = Normal (lit ''A'')
        (run [DoSomething example_rnd, Backup example_now, Undo, Undo, Restore None]
          (world_of (backup example_now (initial (lit ''A'')))))"
proof -
  let ?w = "world_of (backup example_now (initial (lit ''A'')))"
  have h: "0 < length (heap ?w)"
    by (simp add: world_of_backup initial_def console_log_def)
  have s: "getState (heap ?w ! 0) = lit ''A''"
    by (simp add: world_of_backup initial_def console_log_def new_ConcreteMemento_def
        getState_def)
  show ?thesis
    using memento_immutable
      [of 0 ?w "[DoSomething example_rnd, Backup example_now, Undo, Undo, Restore None]"]
      h s
    by (simp del: run.simps)
qed

text \<open>
  C9 (\<^verbatim>\<open>restore\<close> then \<^verbatim>\<open>save\<close>).  For a reference \<open>r\<close> to a memento of the store,
  \<^verbatim>\<open>restore(r)\<close> returns normally, and the memento that an immediately following
  \<^verbatim>\<open>save()\<close> returns has the same \<^verbatim>\<open>getState()\<close> as \<open>r\<close>.
\<close>

theorem restore_then_save:
  "r < length (heap w) \<Longrightarrow>
   value_of (restore (Some r) w) = Some Undefined \<and>
   invoke getState
       (value_of (save now (world_of (restore (Some r) w))))
       (world_of (save now (world_of (restore (Some r) w))))
     = Normal (getState (heap w ! r)) (world_of (save now (world_of (restore (Some r) w)))) \<and>
   invoke getState (Some r) w = Normal (getState (heap w ! r)) w"
  by (simp add: restore_valid invoke_valid save_def new_ConcreteMemento_def getState_def)

theorem restore_then_save_witness:
  "(0::nat) < length (heap (world_of (backup example_now (initial (lit ''A''))))) \<and>
   invoke getState
       (value_of (save example_now (world_of (restore (Some 0)
          (world_of (doSomething example_rnd
             (world_of (backup example_now (initial (lit ''A'')))))))))) 
       (world_of (save example_now (world_of (restore (Some 0)
          (world_of (doSomething example_rnd
             (world_of (backup example_now (initial (lit ''A''))))))))))
     = Normal (lit ''A'')
       (world_of (save example_now (world_of (restore (Some 0)
          (world_of (doSomething example_rnd
             (world_of (backup example_now (initial (lit ''A''))))))))))"
proof -
  let ?w = "world_of (doSomething example_rnd
      (world_of (backup example_now (initial (lit ''A'')))))"
  have h: "0 < length (heap (world_of (backup example_now (initial (lit ''A'')))))"
    by (simp add: world_of_backup initial_def console_log_def)
  have h': "0 < length (heap ?w)"
    by (simp add: heap_doSomething world_of_backup initial_def console_log_def)
  have s: "getState (heap ?w ! 0) = lit ''A''"
    by (simp add: heap_doSomething world_of_backup initial_def console_log_def
        new_ConcreteMemento_def getState_def)
  show ?thesis
    using restore_then_save [OF h', of example_now] h s by simp
qed

text \<open>
  C10 (the name of a memento).  \<^verbatim>\<open>getName()\<close> is the date string of the memento, then
  \<^verbatim>\<open> / (\<close>, then the first 9 code units of the stored state, then \<^verbatim>\<open>...)\<close>; a
  state shorter than 9 appears whole.  For the object the constructor builds, the date
  string is the first 19 code units of the clock's ISO string with its \<^verbatim>\<open>T\<close> replaced
  by a space.  A call of \<^verbatim>\<open>getName()\<close>, \<^verbatim>\<open>getState()\<close> or \<^verbatim>\<open>getDate()\<close> on a
  memento of the store leaves the world as it was, so the same call made again returns
  the same value.
\<close>

theorem getName_format:
  "getName m = getDate m @ lit '' / ('' @ take 9 (getState m) @ lit ''...)'' \<and>
   (length (getState m) < 9 \<longrightarrow>
      getName m = getDate m @ lit '' / ('' @ getState m @ lit ''...)'') \<and>
   getName (new_ConcreteMemento st now)
     = replace (take 19 now) (of_char CHR ''T'') (lit '' '')
       @ lit '' / ('' @ take 9 st @ lit ''...)'' \<and>
   (r < length (heap w) \<longrightarrow>
      invoke getName (Some r) w = Normal (getName (heap w ! r)) w \<and>
      invoke getState (Some r) w = Normal (getState (heap w ! r)) w \<and>
      invoke getDate (Some r) w = Normal (getDate (heap w ! r)) w \<and>
      invoke getName (Some r) (world_of (invoke getName (Some r) w))
        = invoke getName (Some r) w \<and>
      invoke getState (Some r) (world_of (invoke getState (Some r) w))
        = invoke getState (Some r) w \<and>
      invoke getDate (Some r) (world_of (invoke getDate (Some r) w))
        = invoke getDate (Some r) w)"
  by (simp add: getName_def getDate_def getState_def substr_def slice_string_def
      new_ConcreteMemento_def invoke_valid)

theorem getName_format_witness:
  "length (getState (new_ConcreteMemento (lit ''A'') example_now)) < 9 \<and>
   (0::nat) < length (heap (world_of (backup example_now (initial (lit ''A''))))) \<and>
   getName (new_ConcreteMemento (lit ''A'') example_now) = lit ''2024-01-02 03:04:05 / (A...)'' \<and>
   invoke getName (Some 0) (world_of (backup example_now (initial (lit ''A''))))
     = Normal (lit ''2024-01-02 03:04:05 / (A...)'')
         (world_of (backup example_now (initial (lit ''A''))))"
proof -
  let ?m = "new_ConcreteMemento (lit ''A'') example_now"
  let ?w = "world_of (backup example_now (initial (lit ''A'')))"
  have l: "length (getState ?m) < 9"
    by (simp add: getState_def new_ConcreteMemento_def lit_def)
  have h: "0 < length (heap ?w)"
    by (simp add: world_of_backup initial_def console_log_def)
  have o: "heap ?w ! 0 = ?m"
    by (simp add: world_of_backup initial_def console_log_def)
  have s: "getState ?m = lit ''A''"
    by (simp add: getState_def new_ConcreteMemento_def)
  have d: "getDate ?m = lit ''2024-01-02 03:04:05''"
    by (simp add: getDate_def new_ConcreteMemento_def example_now_def slice_string_def lit_def)
  have n: "getName ?m = lit ''2024-01-02 03:04:05 / (A...)''"
    using getName_format [of ?m "lit ''A''" example_now 0 ?w] l
    unfolding s d by (simp add: lit_def)
  show ?thesis
    using getName_format [of ?m "lit ''A''" example_now 0 ?w] l h
    unfolding o n by simp
qed

end
